theory Spec2Isabelle
  imports Complex_Main
begin

section \<open>The student table and the values it holds\<close>

text \<open>
  The storage layer (package \<open>sqlite\<close>) keeps one table,
  \<^verbatim>\<open>students (id INTEGER PRIMARY KEY AUTOINCREMENT, email TEXT NOT NULL UNIQUE,
  name TEXT NOT NULL, age INTEGER NOT NULL)\<close>, and talks to it through SQL statements.
  The Go functions are embedded as HOL functions over an explicit database state; the
  statements they send are given the meaning SQLite gives them on this table. Failures of
  the medium (a closed connection, a full disk) are not part of the state and are left out.
\<close>

text \<open>
  Modelled from the spec: \<open>types.Student\<close>, whose declaration (\<open>internal/types\<close>) is
  not among the source files. The spec's data model gives its four fields, and the storage
  layer scans a row into \<open>Id\<close>, \<open>Email\<close>, \<open>Name\<close>, \<open>Age\<close> and passes \<open>Age\<close> as a Go
  \<open>int\<close>. The field \<open>Id\<close> is written \<open>Id_field\<close> because \<open>Id\<close> is the identity
  relation of HOL.
\<close>

record Student =
  Id_field :: int
  Name :: string
  Email :: string
  Age :: int

text \<open>
  A Go value of type \<open>any\<close> as \<open>Update\<close> receives it in \<open>map[string]any\<close>: what
  \<open>encoding/json\<close> decodes into an interface (nil, bool, float64, string, and the
  composite \<open>[]any\<close> and \<open>map[string]any\<close>), and an int64 a Go caller may pass. A finite
  float64 is an exact rational, and JSON has no NaN or infinity, so \<open>AFloat\<close> carries a
  rational.
\<close>

datatype any = ANil | ABool bool | AInt int | AFloat rat | AString string | AComposite

text \<open>The value the driver binds to a \<open>?\<close> placeholder.\<close>

datatype sqlval = SqlNull | SqlInteger int | SqlReal rat | SqlText string

text \<open>
  The storage classes a cell of the column \<open>age\<close> can hold. The column is declared
  INTEGER, which in SQLite is an affinity, not a constraint: a value that does not convert
  to an integer is stored as it is. NOT NULL excludes the null.
\<close>

datatype cell = CInteger int | CReal rat | CText string

text \<open>
  A stored row. \<open>id\<close> is the rowid and always an integer; the columns \<open>email\<close> and
  \<open>name\<close> have TEXT affinity, which turns every number into text before it is stored, so
  with NOT NULL they always hold text.
\<close>

record row =
  r_id :: int
  r_email :: string
  r_name :: string
  r_age :: cell

text \<open>
  The database behind \<open>Sqlite.Db\<close>: the rows of \<open>students\<close> in rowid order, and the
  entry of \<open>sqlite_sequence\<close> that AUTOINCREMENT keeps (the largest rowid an INSERT has
  assigned so far, 0 before the first one).
\<close>

record Sqlite =
  students :: "row list"
  sqlite_sequence :: nat

text \<open>
  Go errors. The program has no error taxonomy of its own: an error is \<open>sql.ErrNoRows\<close>,
  a message made by \<open>errors.New\<close> or \<open>fmt.Errorf\<close>, another error wrapped with \<open>%w\<close>
  under a prefix, or what \<open>database/sql\<close>, the driver and \<open>encoding/json\<close> report:
  a value that \<open>Scan\<close> cannot convert, an argument of an unsupported type (or the wrong
  number of arguments), a violated UNIQUE or NOT NULL constraint, SQLITE_FULL, a
  statement that does not compile, a JSON decoding error with its text. \<open>OutsideModel\<close>
  stands for a statement text that leaves the fragment of SQL interpreted here.
\<close>

datatype error =
    ErrNoRows
  | ErrorString string
  | Wrapped string error
  | ScanError
  | ArgumentError
  | ConstraintUnique
  | ConstraintNotNull
  | DatabaseFull
  | PrepareError
  | DecodeError string
  | OutsideModel

section \<open>Conversions of the Go standard library\<close>

text \<open>
  \<open>strconv.ParseInt(s, 10, 64)\<close>: an optional sign, then one or more decimal digits, and
  the value must fit in 64 bits. \<open>None\<close> is the error return.
\<close>

definition is_digit :: "char \<Rightarrow> bool" where
  "is_digit c = (48 \<le> (of_char c :: nat) \<and> (of_char c :: nat) \<le> 57)"

definition digits_value :: "string \<Rightarrow> int" where
  "digits_value ds = foldl (\<lambda>n c. 10 * n + ((of_char c :: int) - 48)) 0 ds"

definition ParseInt :: "string \<Rightarrow> int option" where
  "ParseInt s =
     (let neg = (case s of [] \<Rightarrow> False | c # _ \<Rightarrow> c = CHR ''-'');
          ds = (case s of [] \<Rightarrow> [] | c # cs \<Rightarrow> if c = CHR ''+'' \<or> c = CHR ''-'' then cs else s)
      in if ds = [] \<or> \<not> list_all is_digit ds then None
         else let v = (if neg then - digits_value ds else digits_value ds)
              in if - (2 ^ 63) \<le> v \<and> v \<le> 2 ^ 63 - 1 then Some v else None)"

definition is_integral :: "rat \<Rightarrow> bool" where
  "is_integral r = (rat_of_int \<lfloor>r\<rfloor> = r)"

text \<open>
  \<open>Rows.Scan\<close> into the field \<open>Age\<close> (a Go \<open>int\<close>, 64 bits). An integer cell is
  assigned. Any other cell goes through \<open>strconv.ParseInt\<close> on its text: for a text cell
  the text itself, for a real cell \<open>strconv.FormatFloat(f, 'g', -1, 64)\<close>, which is a
  plain digit string exactly when the value is whole and below \<open>10^6\<close> in magnitude
  (from there on the format has an exponent, and a fraction has a point).
\<close>

definition scan_int :: "cell \<Rightarrow> error + int" where
  "scan_int c =
     (case c of
        CInteger n \<Rightarrow> Inr n
      | CReal r \<Rightarrow> if is_integral r \<and> \<bar>r\<bar> < 1000000 then Inr \<lfloor>r\<rfloor> else Inl ScanError
      | CText s \<Rightarrow> (case ParseInt s of None \<Rightarrow> Inl ScanError | Some n \<Rightarrow> Inr n))"

section \<open>Storage: create, read, delete\<close>

text \<open>
  \<^verbatim>\<open>SELECT id, email, name, age FROM students WHERE id = ? LIMIT 1\<close> followed by
  \<open>Scan\<close>: no row is \<open>sql.ErrNoRows\<close>, a row is scanned field by field.
\<close>

definition scan_row :: "row \<Rightarrow> error + Student" where
  "scan_row r =
     (case scan_int (r_age r) of
        Inl err \<Rightarrow> Inl err
      | Inr a \<Rightarrow> Inr \<lparr>Id_field = r_id r, Name = r_name r, Email = r_email r, Age = a\<rparr>)"

definition GetStudentById :: "Sqlite \<Rightarrow> int \<Rightarrow> error + Student" where
  "GetStudentById s sid =
     (case find (\<lambda>r. r_id r = sid) (students s) of
        None \<Rightarrow> Inl ErrNoRows
      | Some r \<Rightarrow> scan_row r)"

text \<open>
  \<open>GetStudents\<close>: the loop over \<open>rows.Next()\<close> appends each scanned row and returns at
  the first scan error.
\<close>

fun scan_rows :: "row list \<Rightarrow> Student list \<Rightarrow> error + Student list" where
  "scan_rows [] acc = Inr acc"
| "scan_rows (r # rs) acc =
     (case scan_row r of Inl err \<Rightarrow> Inl err | Inr st \<Rightarrow> scan_rows rs (acc @ [st]))"

definition GetStudents :: "Sqlite \<Rightarrow> error + Student list" where
  "GetStudents s = scan_rows (students s) []"

text \<open>
  \<^verbatim>\<open>INSERT INTO students (name, email, age) VALUES (?, ?, ?)\<close> with a Go string, string
  and int. AUTOINCREMENT picks a rowid one above both the largest rowid in the table and
  the recorded sequence, and fails with SQLITE_FULL when that would pass the largest
  64-bit integer. Then UNIQUE on \<open>email\<close> is checked. A statement that fails changes
  nothing.
\<close>

definition MAX_ROWID :: int where
  "MAX_ROWID = 2 ^ 63 - 1"

definition largest_rowid :: "Sqlite \<Rightarrow> int" where
  "largest_rowid s = Max (set (int (sqlite_sequence s) # map r_id (students s)))"

definition exec_insert :: "Sqlite \<Rightarrow> string \<Rightarrow> string \<Rightarrow> int \<Rightarrow> error + (Sqlite \<times> int)" where
  "exec_insert s name email age =
     (if MAX_ROWID \<le> largest_rowid s then Inl DatabaseFull
      else if list_ex (\<lambda>r. r_email r = email) (students s) then Inl ConstraintUnique
      else let rowid = largest_rowid s + 1
           in Inr (s\<lparr>students := students s @
                        [\<lparr>r_id = rowid, r_email = email, r_name = name, r_age = CInteger age\<rparr>],
                      sqlite_sequence := nat rowid\<rparr>, rowid))"

definition CreateStudent :: "Sqlite \<Rightarrow> string \<Rightarrow> string \<Rightarrow> int \<Rightarrow> Sqlite \<times> (error + int)" where
  "CreateStudent s name email age =
     (case exec_insert s name email age of
        Inl err \<Rightarrow> (s, Inl err)
      | Inr (s', lastId) \<Rightarrow> (s', Inr lastId))"

text \<open>
  \<open>Delete\<close>: the existence check through \<open>GetStudentById\<close>, whose error is wrapped as
  "student not found", then \<^verbatim>\<open>DELETE FROM students WHERE id = ?\<close> and the number of rows
  it removed.
\<close>

definition exec_delete :: "Sqlite \<Rightarrow> int \<Rightarrow> Sqlite \<times> int" where
  "exec_delete s sid =
     (s\<lparr>students := filter (\<lambda>r. r_id r \<noteq> sid) (students s)\<rparr>,
      int (length (filter (\<lambda>r. r_id r = sid) (students s))))"

definition Delete :: "Sqlite \<Rightarrow> int \<Rightarrow> Sqlite \<times> (error + int)" where
  "Delete s sid =
     (case GetStudentById s sid of
        Inl err \<Rightarrow> (s, Inl (Wrapped ''student not found'' err))
      | Inr _ \<Rightarrow> (case exec_delete s sid of (s', rowsAffected) \<Rightarrow> (s', Inr rowsAffected)))"

section \<open>The UPDATE statement as SQLite reads it\<close>

text \<open>
  \<open>Update\<close> builds its statement as text, from the keys of the map it is given. The text
  is therefore read back here the way SQLite compiles it, as far as it has the shape
  \<^verbatim>\<open>UPDATE students SET <name> = ?, ..., <name> = ? WHERE id = ?\<close> with plain
  identifiers for the names. SQLite's renderings of numbers as text, and its reading of a
  text as a number, are not written out: they are parameters of the engine, and the
  theorems on \<open>Update\<close> hold for all of them.
\<close>

record engine =
  int_text :: "int \<Rightarrow> string"
  real_text :: "rat \<Rightarrow> string"
  text_number :: "string \<Rightarrow> (int + rat) option"

text \<open>
  What \<open>database/sql\<close> and the driver accept as an argument: nil is NULL, a bool is the
  integer 1 or 0, an int64, a float64 and a string go in as they are; a slice or a map is
  refused before the statement runs.
\<close>

definition bind :: "any \<Rightarrow> sqlval option" where
  "bind v =
     (case v of
        ANil \<Rightarrow> Some SqlNull
      | ABool b \<Rightarrow> Some (SqlInteger (if b then 1 else 0))
      | AInt n \<Rightarrow> Some (SqlInteger n)
      | AFloat r \<Rightarrow> Some (SqlReal r)
      | AString t \<Rightarrow> Some (SqlText t)
      | AComposite \<Rightarrow> None)"

fun those_bound :: "any list \<Rightarrow> sqlval list option" where
  "those_bound [] = Some []"
| "those_bound (a # as) =
     (case bind a of
        None \<Rightarrow> None
      | Some v \<Rightarrow> (case those_bound as of None \<Rightarrow> None | Some vs \<Rightarrow> Some (v # vs)))"

text \<open>
  Column affinity. TEXT: a number is stored as its text. INTEGER: a real that is whole and
  strictly inside the 64-bit range becomes an integer, a text that reads as a number
  becomes that number, and everything else is stored as it came. NULL (\<open>None\<close>) is left to
  the NOT NULL constraint.
\<close>

definition text_affinity :: "engine \<Rightarrow> sqlval \<Rightarrow> string option" where
  "text_affinity E v =
     (case v of
        SqlNull \<Rightarrow> None
      | SqlInteger n \<Rightarrow> Some (int_text E n)
      | SqlReal r \<Rightarrow> Some (real_text E r)
      | SqlText t \<Rightarrow> Some t)"

definition real_cell :: "rat \<Rightarrow> cell" where
  "real_cell r =
     (if is_integral r \<and> - (2 ^ 63) < r \<and> r < 2 ^ 63 - 1 then CInteger \<lfloor>r\<rfloor> else CReal r)"

definition integer_affinity :: "engine \<Rightarrow> sqlval \<Rightarrow> cell option" where
  "integer_affinity E v =
     (case v of
        SqlNull \<Rightarrow> None
      | SqlInteger n \<Rightarrow> Some (CInteger n)
      | SqlReal r \<Rightarrow> Some (real_cell r)
      | SqlText t \<Rightarrow>
          Some (case text_number E t of
                  None \<Rightarrow> CText t
                | Some (Inl n) \<Rightarrow> CInteger n
                | Some (Inr r) \<Rightarrow> CReal r))"

text \<open>
  The columns an UPDATE may assign, and what a name in the SET clause refers to. SQLite
  compares column names without regard to ASCII case; \<open>id\<close> and the names \<open>rowid\<close>,
  \<open>oid\<close>, \<open>_rowid_\<close> all denote the primary key.
\<close>

datatype column = Col_email | Col_name | Col_age

datatype target = Column column | Rowid | NoSuchColumn

definition to_lower :: "char \<Rightarrow> char" where
  "to_lower c =
     (if 65 \<le> (of_char c :: nat) \<and> (of_char c :: nat) \<le> 90
      then char_of ((of_char c :: nat) + 32) else c)"

definition resolve :: "string \<Rightarrow> target" where
  "resolve k =
     (let l = map to_lower k
      in if l = ''email'' then Column Col_email
         else if l = ''name'' then Column Col_name
         else if l = ''age'' then Column Col_age
         else if l = ''id'' \<or> l = ''rowid'' \<or> l = ''oid'' \<or> l = ''_rowid_'' then Rowid
         else NoSuchColumn)"

fun columns_of :: "target list \<Rightarrow> column list" where
  "columns_of [] = []"
| "columns_of (Column c # ts) = c # columns_of ts"
| "columns_of (_ # ts) = columns_of ts"

text \<open>Reading the statement text: the fixed prefix, then the assignments.\<close>

fun strip_prefix :: "string \<Rightarrow> string \<Rightarrow> string option" where
  "strip_prefix [] s = Some s"
| "strip_prefix (p # ps) [] = None"
| "strip_prefix (p # ps) (c # cs) = (if p = c then strip_prefix ps cs else None)"

lemma strip_prefix_append: "strip_prefix p (p @ s) = Some s"
  by (induction p) auto

lemma strip_prefix_Some: "strip_prefix p s = Some r \<Longrightarrow> s = p @ r"
  by (induction p s rule: strip_prefix.induct) (auto split: if_splits)

definition ident_char :: "char \<Rightarrow> bool" where
  "ident_char c =
     (let n = (of_char c :: nat)
      in (48 \<le> n \<and> n \<le> 57) \<or> (65 \<le> n \<and> n \<le> 90) \<or> (97 \<le> n \<and> n \<le> 122) \<or> n = 95)"

function parse_assignments :: "string \<Rightarrow> string list option" where
  "parse_assignments s =
     (if takeWhile ident_char s = [] then None
      else case strip_prefix '' = ?'' (dropWhile ident_char s) of
        None \<Rightarrow> None
      | Some r \<Rightarrow>
          if r = '' WHERE id = ?'' then Some [takeWhile ident_char s]
          else (case strip_prefix '', '' r of
                  None \<Rightarrow> None
                | Some r' \<Rightarrow> map_option ((#) (takeWhile ident_char s)) (parse_assignments r')))"
  by pat_completeness auto
termination
proof (relation "measure length")
  show "wf (measure length)" by simp
next
  fix s r r' :: string
  assume "strip_prefix '' = ?'' (dropWhile ident_char s) = Some r"
    and "strip_prefix '', '' r = Some r'"
  then have "dropWhile ident_char s = '' = ?'' @ '', '' @ r'"
    by (auto dest!: strip_prefix_Some)
  then have "length r' < length (dropWhile ident_char s)" by simp
  also have "\<dots> \<le> length s" by (rule length_dropWhile_le)
  finally show "(r', s) \<in> measure length" by simp
qed

declare parse_assignments.simps [simp del]

text \<open>
  \<open>Db.Prepare\<close> on the UPDATE text. An unknown column name fails to compile. A text
  outside the shape above, an assignment to the primary key and a column assigned twice
  are outside the fragment.
\<close>

definition Prepare :: "string \<Rightarrow> error + column list" where
  "Prepare query =
     (case strip_prefix ''UPDATE students SET '' query of
        None \<Rightarrow> Inl OutsideModel
      | Some rest \<Rightarrow>
          (case parse_assignments rest of
             None \<Rightarrow> Inl OutsideModel
           | Some names \<Rightarrow>
               let ts = map resolve names
               in if list_ex (\<lambda>t. t = NoSuchColumn) ts then Inl PrepareError
                  else if list_ex (\<lambda>t. t = Rowid) ts then Inl OutsideModel
                  else if distinct (columns_of ts) then Inr (columns_of ts)
                  else Inl OutsideModel))"

text \<open>
  \<open>Stmt.Exec\<close>: the arguments are bound (their number must be that of the
  placeholders), the last one is the id of the WHERE clause, and each row with that id
  gets the new cells. NOT NULL and, when \<open>email\<close> is assigned, UNIQUE are checked; a
  violated constraint aborts the statement and leaves the table as it was.
\<close>

definition assign :: "engine \<Rightarrow> row \<Rightarrow> column \<times> sqlval \<Rightarrow> error + row" where
  "assign E r cv =
     (case cv of
        (Col_email, v) \<Rightarrow>
          (case text_affinity E v of None \<Rightarrow> Inl ConstraintNotNull
           | Some t \<Rightarrow> Inr (r\<lparr>r_email := t\<rparr>))
      | (Col_name, v) \<Rightarrow>
          (case text_affinity E v of None \<Rightarrow> Inl ConstraintNotNull
           | Some t \<Rightarrow> Inr (r\<lparr>r_name := t\<rparr>))
      | (Col_age, v) \<Rightarrow>
          (case integer_affinity E v of None \<Rightarrow> Inl ConstraintNotNull
           | Some c \<Rightarrow> Inr (r\<lparr>r_age := c\<rparr>)))"

fun assign_all :: "engine \<Rightarrow> (column \<times> sqlval) list \<Rightarrow> row \<Rightarrow> error + row" where
  "assign_all E [] r = Inr r"
| "assign_all E (cv # cvs) r =
     (case assign E r cv of Inl err \<Rightarrow> Inl err | Inr r' \<Rightarrow> assign_all E cvs r')"

fun update_where :: "engine \<Rightarrow> (column \<times> sqlval) list \<Rightarrow> int \<Rightarrow> row list \<Rightarrow> error + row list" where
  "update_where E sets sid [] = Inr []"
| "update_where E sets sid (r # rs) =
     (case (if r_id r = sid then assign_all E sets r else Inr r) of
        Inl err \<Rightarrow> Inl err
      | Inr r' \<Rightarrow>
          (case update_where E sets sid rs of
             Inl err \<Rightarrow> Inl err
           | Inr rs' \<Rightarrow> Inr (r' # rs')))"

definition email_conflict :: "int \<Rightarrow> row list \<Rightarrow> bool" where
  "email_conflict sid rs =
     list_ex (\<lambda>r. r_id r = sid \<and> list_ex (\<lambda>other. r_id other \<noteq> sid \<and> r_email other = r_email r) rs) rs"

definition Exec :: "engine \<Rightarrow> Sqlite \<Rightarrow> column list \<Rightarrow> any list \<Rightarrow> error + Sqlite" where
  "Exec E s cols args =
     (if length args \<noteq> length cols + 1 then Inl ArgumentError
      else case those_bound args of
        None \<Rightarrow> Inl ArgumentError
      | Some vals \<Rightarrow>
          (case last vals of
             SqlInteger sid \<Rightarrow>
               (case update_where E (zip cols (butlast vals)) sid (students s) of
                  Inl err \<Rightarrow> Inl err
                | Inr rows' \<Rightarrow>
                    if list_ex (\<lambda>c. c = Col_email) cols \<and> email_conflict sid rows'
                    then Inl ConstraintUnique
                    else Inr (s\<lparr>students := rows'\<rparr>))
           | _ \<Rightarrow> Inl OutsideModel))"

section \<open>Storage: update\<close>

text \<open>
  The loop \<^verbatim>\<open>for k, v := range updates\<close> with its counter \<open>i\<close>: it appends
  \<^verbatim>\<open>", "\<close> before every assignment but the first, then \<^verbatim>\<open>k + " = ?"\<close>, and collects
  the values. A Go map is given as the list of its entries in the order the loop meets
  them; its keys are distinct.
\<close>

fun range_updates :: "(string \<times> any) list \<Rightarrow> nat \<Rightarrow> string \<Rightarrow> any list \<Rightarrow> string \<times> any list" where
  "range_updates [] i query args = (query, args)"
| "range_updates ((k, v) # rest) i query args =
     range_updates rest (i + 1)
       ((if i > 0 then query @ '', '' else query) @ k @ '' = ?'') (args @ [v])"

definition update_statement :: "(string \<times> any) list \<Rightarrow> int \<Rightarrow> string \<times> any list" where
  "update_statement updates sid =
     (case range_updates updates 0 ''UPDATE students SET '' [] of
        (query, args) \<Rightarrow> (query @ '' WHERE id = ?'', args @ [AInt sid]))"

text \<open>
  \<open>Update\<close>: the empty map is refused first; then the existence check, the statement
  built and prepared, executed, and the row read again.
\<close>

definition Update :: "engine \<Rightarrow> Sqlite \<Rightarrow> int \<Rightarrow> (string \<times> any) list \<Rightarrow> Sqlite \<times> (error + Student)" where
  "Update E s sid updates =
     (if length updates = 0 then (s, Inl (ErrorString ''no fields to update''))
      else case GetStudentById s sid of
        Inl err \<Rightarrow> (s, Inl err)
      | Inr _ \<Rightarrow>
          (case update_statement updates sid of
             (query, args) \<Rightarrow>
               (case Prepare query of
                  Inl err \<Rightarrow> (s, Inl err)
                | Inr stmt \<Rightarrow>
                    (case Exec E s stmt args of
                       Inl err \<Rightarrow> (s, Inl err)
                     | Inr s' \<Rightarrow> (s', GetStudentById s' sid)))))"

section \<open>Handlers\<close>

text \<open>
  What \<open>json.NewDecoder(r.Body).Decode\<close> reports: \<open>io.EOF\<close> on an empty body, another
  error (the target is then left at its zero value, which for the map of \<open>UpdateById\<close>
  is nil), or a decoded value.
\<close>

datatype 'a decoded = DecodeEOF | DecodeFailed string | Decoded 'a

text \<open>
  A response: the status code and the JSON written. The error envelope is
  \<open>response.Response\<close> (\<open>status\<close> "error" and the error's text, kept here as the error
  itself); the success envelope is the map with \<open>status\<close> "success", a message and the
  data.
\<close>

datatype data = LastId int | OneStudent Student | StudentList "Student list" | RowsDeleted int

datatype json_out = ErrorBody error | SuccessBody string data

record response =
  status_code :: nat
  written :: json_out

definition WriteJson :: "nat \<Rightarrow> json_out \<Rightarrow> response" where
  "WriteJson st d = \<lparr>status_code = st, written = d\<rparr>"

definition GeneralError :: "error \<Rightarrow> json_out" where
  "GeneralError err = ErrorBody err"

text \<open>
  \<open>response.ValidationError\<close>: one message per field error, chosen by the tag that
  failed, joined with \<^verbatim>\<open>", "\<close>.
\<close>

datatype tag = Required | EmailTag | OtherTag

fun join_messages :: "string list \<Rightarrow> string" where
  "join_messages [] = []"
| "join_messages [m] = m"
| "join_messages (m # m' # ms) = m @ '', '' @ join_messages (m' # ms)"

definition field_message :: "string \<times> tag \<Rightarrow> string" where
  "field_message e =
     (case snd e of
        Required \<Rightarrow> ''field '' @ [CHR 0x27] @ fst e @ [CHR 0x27] @ '' is required''
      | EmailTag \<Rightarrow> ''field '' @ [CHR 0x27] @ fst e @ [CHR 0x27] @ '' must be a valid email''
      | OtherTag \<Rightarrow> ''field '' @ [CHR 0x27] @ fst e @ [CHR 0x27] @ '' is invalid'')"

definition ValidationError :: "(string \<times> tag) list \<Rightarrow> json_out" where
  "ValidationError errs = ErrorBody (ErrorString (join_messages (map field_message errs)))"

text \<open>
  Modelled from the spec: \<open>validate.Struct(student)\<close>. The rules are the \<open>validate\<close>
  tags of \<open>types.Student\<close>, whose declaration is not among the source files; the spec's
  table gives them: \<open>name\<close> required and non-empty, \<open>email\<close> a valid email address,
  \<open>age\<close> in [1,120], each with the message of its row. The syntax check of an email
  address belongs to the validator library and is a parameter.
\<close>

definition validate_Struct :: "(string \<Rightarrow> bool) \<Rightarrow> Student \<Rightarrow> (string \<times> tag) list" where
  "validate_Struct is_email student =
     (if Name student = [] then [(''name'', Required)] else []) @
     (if is_email (Email student) then [] else [(''email'', EmailTag)]) @
     (if 1 \<le> Age student \<and> Age student \<le> 120 then [] else [(''age'', OtherTag)])"

text \<open>\<open>student.New\<close>: decode, validate, create.\<close>

definition New :: "(string \<Rightarrow> bool) \<Rightarrow> Sqlite \<Rightarrow> Student decoded \<Rightarrow> Sqlite \<times> response" where
  "New is_email storage decoded =
     (case decoded of
        DecodeEOF \<Rightarrow>
          (storage, WriteJson 400 (GeneralError (ErrorString ''empty request body'')))
      | DecodeFailed msg \<Rightarrow>
          (storage, WriteJson 400 (GeneralError (Wrapped ''invalid JSON'' (DecodeError msg))))
      | Decoded student \<Rightarrow>
          (case validate_Struct is_email student of
             e # es \<Rightarrow> (storage, WriteJson 400 (ValidationError (e # es)))
           | [] \<Rightarrow>
               (case CreateStudent storage (Name student) (Email student) (Age student) of
                  (storage', Inl err) \<Rightarrow> (storage', WriteJson 500 (GeneralError err))
                | (storage', Inr lastId) \<Rightarrow>
                    (storage', WriteJson 201
                       (SuccessBody ''student created successfully'' (LastId lastId))))))"

definition GetById :: "Sqlite \<Rightarrow> string \<Rightarrow> Sqlite \<times> response" where
  "GetById storage ident =
     (case ParseInt ident of
        None \<Rightarrow> (storage, WriteJson 400 (GeneralError (ErrorString ''invalid student ID'')))
      | Some intId \<Rightarrow>
          (case GetStudentById storage intId of
             Inl err \<Rightarrow> (storage, WriteJson 500 (GeneralError err))
           | Inr student \<Rightarrow>
               (storage, WriteJson 200
                  (SuccessBody ''student fetched successfully'' (OneStudent student)))))"

definition GetList :: "Sqlite \<Rightarrow> Sqlite \<times> response" where
  "GetList storage =
     (case GetStudents storage of
        Inl err \<Rightarrow> (storage, WriteJson 500 (GeneralError err))
      | Inr sts \<Rightarrow>
          (storage, WriteJson 200
             (SuccessBody ''students fetched successfully'' (StudentList sts))))"

text \<open>
  \<open>student.UpdateById\<close>. The result of \<open>Decode\<close> is not looked at, so on any decoding
  error the loop runs over the nil map. Only the keys of the allow-list are copied into
  \<open>updates\<close>.
\<close>

definition allowed :: "string \<Rightarrow> bool" where
  "allowed k = (k = ''name'' \<or> k = ''email'' \<or> k = ''age'')"

definition allowed_updates :: "(string \<times> any) list \<Rightarrow> (string \<times> any) list" where
  "allowed_updates body = filter (\<lambda>kv. allowed (fst kv)) body"

definition UpdateById ::
  "engine \<Rightarrow> Sqlite \<Rightarrow> string \<Rightarrow> (string \<times> any) list decoded \<Rightarrow> Sqlite \<times> response" where
  "UpdateById E storage ident decoded =
     (case ParseInt ident of
        None \<Rightarrow> (storage, WriteJson 400 (GeneralError (ErrorString ''invalid student ID'')))
      | Some intId \<Rightarrow>
          (let body = (case decoded of Decoded m \<Rightarrow> m | _ \<Rightarrow> []);
               updates = allowed_updates body
           in case Update E storage intId updates of
                (storage', Inl err) \<Rightarrow> (storage', WriteJson 500 (GeneralError err))
              | (storage', Inr student) \<Rightarrow>
                  (storage', WriteJson 200
                     (SuccessBody ''student updated successfully'' (OneStudent student)))))"

definition DeleteById :: "Sqlite \<Rightarrow> string \<Rightarrow> Sqlite \<times> response" where
  "DeleteById storage ident =
     (case ParseInt ident of
        None \<Rightarrow> (storage, WriteJson 400 (GeneralError (ErrorString ''invalid student ID'')))
      | Some intId \<Rightarrow>
          (case Delete storage intId of
             (storage', Inl err) \<Rightarrow> (storage', WriteJson 500 (GeneralError err))
           | (storage', Inr rowsDeleted) \<Rightarrow>
               (storage', WriteJson 200
                  (SuccessBody ''student deleted successfully'' (RowsDeleted rowsDeleted)))))"

section \<open>The router\<close>

text \<open>
  \<open>http.ServeMux\<close> with the patterns \<open>main\<close> registers. A pattern is a method and a
  path; a path segment in braces matches any one non-empty segment, a path that ends in a
  slash matches every path below it. Among the patterns that match a request the most
  specific one serves it (a literal segment before a wildcard, a wildcard before the
  rest of a subtree). A path without its final slash is redirected when the path with the
  slash has an exact match; a path that only other methods match is answered with 405.
  No pattern here names a host, and request paths are taken as the server has cleaned
  them.
\<close>

datatype handler =
  Welcome | Student_New | Student_GetById | Student_GetList | Student_UpdateById
  | Student_DeleteById

datatype segment = Literal string | Wildcard string

record pattern =
  p_method :: string
  p_segments :: "segment list"
  p_subtree :: bool

fun split_path :: "string \<Rightarrow> string \<Rightarrow> string list" where
  "split_path [] cur = [cur]"
| "split_path (c # cs) cur =
     (if c = CHR ''/'' then cur # split_path cs [] else split_path cs (cur @ [c]))"

definition path_segments :: "string \<Rightarrow> string list" where
  "path_segments p = (case split_path p [] of [] \<Rightarrow> [] | _ # segs \<Rightarrow> segs)"

definition to_segment :: "string \<Rightarrow> segment" where
  "to_segment t =
     (if 2 \<le> length t \<and> hd t = CHR ''{'' \<and> last t = CHR ''}''
      then Wildcard (butlast (tl t)) else Literal t)"

definition parse_pattern :: "string \<Rightarrow> pattern" where
  "parse_pattern t =
     (let m = takeWhile (\<lambda>c. c \<noteq> CHR '' '') t;
          p = tl (dropWhile (\<lambda>c. c \<noteq> CHR '' '') t);
          segs = path_segments p
      in if segs \<noteq> [] \<and> last segs = []
         then \<lparr>p_method = m, p_segments = map to_segment (butlast segs), p_subtree = True\<rparr>
         else \<lparr>p_method = m, p_segments = map to_segment segs, p_subtree = False\<rparr>)"

definition HandleFunc :: "(pattern \<times> handler) list \<Rightarrow> string \<Rightarrow> handler \<Rightarrow> (pattern \<times> handler) list" where
  "HandleFunc router pat h = router @ [(parse_pattern pat, h)]"

definition method_matches :: "pattern \<Rightarrow> string \<Rightarrow> bool" where
  "method_matches p m =
     (p_method p = [] \<or> p_method p = m \<or> (p_method p = ''GET'' \<and> m = ''HEAD''))"

fun segments_match :: "segment list \<Rightarrow> bool \<Rightarrow> string list \<Rightarrow> bool" where
  "segments_match [] subtree [] = (\<not> subtree)"
| "segments_match [] subtree (t # ts) = subtree"
| "segments_match (g # gs) subtree [] = False"
| "segments_match (Literal l # gs) subtree (t # ts) = (l = t \<and> segments_match gs subtree ts)"
| "segments_match (Wildcard w # gs) subtree (t # ts) = (t \<noteq> [] \<and> segments_match gs subtree ts)"

definition path_matches :: "pattern \<Rightarrow> string list \<Rightarrow> bool" where
  "path_matches p segs = segments_match (p_segments p) (p_subtree p) segs"

fun rank :: "segment list \<Rightarrow> bool \<Rightarrow> nat list" where
  "rank [] subtree = (if subtree then [0] else [])"
| "rank (Literal l # gs) subtree = 2 # rank gs subtree"
| "rank (Wildcard w # gs) subtree = 1 # rank gs subtree"

fun lex_less :: "nat list \<Rightarrow> nat list \<Rightarrow> bool" where
  "lex_less [] [] = False"
| "lex_less [] (y # ys) = True"
| "lex_less (x # xs) [] = False"
| "lex_less (x # xs) (y # ys) = (x < y \<or> (x = y \<and> lex_less xs ys))"

fun most_specific :: "(pattern \<times> handler) list \<Rightarrow> (pattern \<times> handler) option" where
  "most_specific [] = None"
| "most_specific (r # rs) =
     (case most_specific rs of
        None \<Rightarrow> Some r
      | Some b \<Rightarrow>
          if lex_less (rank (p_segments (fst r)) (p_subtree (fst r)))
                      (rank (p_segments (fst b)) (p_subtree (fst b)))
          then Some b else Some r)"

definition match :: "(pattern \<times> handler) list \<Rightarrow> string \<Rightarrow> string list \<Rightarrow> (pattern \<times> handler) option" where
  "match router m segs =
     most_specific (filter (\<lambda>r. method_matches (fst r) m \<and> path_matches (fst r) segs) router)"

definition exactMatch :: "(pattern \<times> handler) option \<Rightarrow> string list \<Rightarrow> bool" where
  "exactMatch n segs =
     (case n of
        None \<Rightarrow> False
      | Some r \<Rightarrow>
          if \<not> p_subtree (fst r) then True
          else if segs \<noteq> [] \<and> last segs \<noteq> [] then False
          else length (p_segments (fst r)) + 1 = length segs)"

datatype served = Serve handler | Redirect | MethodNotAllowed | NotFound

definition findHandler :: "(pattern \<times> handler) list \<Rightarrow> string \<Rightarrow> string \<Rightarrow> served" where
  "findHandler router m path =
     (let segs = path_segments path;
          n = match router m segs;
          slash = (segs \<noteq> [] \<and> last segs = [])
      in if \<not> exactMatch n segs \<and> \<not> slash \<and> exactMatch (match router m (segs @ [[]])) (segs @ [[]])
         then Redirect
         else case n of
           Some r \<Rightarrow> Serve (snd r)
         | None \<Rightarrow>
             if list_ex (\<lambda>r. path_matches (fst r) segs) router \<or>
                (\<not> slash \<and> list_ex (\<lambda>r. path_matches (fst r) (segs @ [[]])) router)
             then MethodNotAllowed else NotFound)"

text \<open>
  The routes of \<open>cmd/student-api/main.go\<close>, and those of the other \<open>main\<close> among the
  source files (part_005), which also opens the database.
\<close>

definition main_router :: "(pattern \<times> handler) list" where
  "main_router = HandleFunc [] ''GET /'' Welcome"

definition part_005_router :: "(pattern \<times> handler) list" where
  "part_005_router =
     HandleFunc
       (HandleFunc
          (HandleFunc [] ''POST /api/students'' Student_New)
          ''GET /api/students/{id}'' Student_GetById)
       ''GET /api/students/'' Student_GetList"

section \<open>Notions used in the statements\<close>

text \<open>The primary key: no two rows share an id.\<close>

definition unique_ids :: "Sqlite \<Rightarrow> bool" where
  "unique_ids s = distinct (map r_id (students s))"

text \<open>
  What an update of the student \<open>sid\<close> with the keys \<open>keys\<close> may do to a row: the id
  stays, a row of another student stays as it is, and a column whose name is not among
  the keys keeps its cell.
\<close>

definition row_frame :: "int \<Rightarrow> string set \<Rightarrow> row \<Rightarrow> row \<Rightarrow> bool" where
  "row_frame sid keys r r' =
     (r_id r' = r_id r \<and> (r_id r \<noteq> sid \<longrightarrow> r' = r) \<and>
      (''email'' \<notin> keys \<longrightarrow> r_email r' = r_email r) \<and>
      (''name'' \<notin> keys \<longrightarrow> r_name r' = r_name r) \<and>
      (''age'' \<notin> keys \<longrightarrow> r_age r' = r_age r))"

text \<open>
  The SET clause for a list of keys, the column an allow-listed key names, and a plain
  identifier.
\<close>

fun join_assignments :: "string list \<Rightarrow> string" where
  "join_assignments [] = []"
| "join_assignments [k] = k @ '' = ?''"
| "join_assignments (k # k' # ks) = k @ '' = ?'' @ '', '' @ join_assignments (k' # ks)"

definition the_column :: "string \<Rightarrow> column" where
  "the_column k = (if k = ''email'' then Col_email else if k = ''name'' then Col_name else Col_age)"

definition is_identifier :: "string \<Rightarrow> bool" where
  "is_identifier k = (k \<noteq> [] \<and> list_all ident_char k)"

text \<open>
  The table a list of assignments to distinct columns yields for a row, whatever their
  order: whether a cell is refused by NOT NULL, and the row with the cells assigned. The
  assignments of a map of updates are its entries, each as the column and the bound value.
\<close>

definition cell_fails :: "engine \<Rightarrow> column \<times> sqlval \<Rightarrow> bool" where
  "cell_fails E cv = (case cv of (Col_age, v) \<Rightarrow> integer_affinity E v = None
                      | (_, v) \<Rightarrow> text_affinity E v = None)"

definition assigned :: "engine \<Rightarrow> (column \<rightharpoonup> sqlval) \<Rightarrow> row \<Rightarrow> row" where
  "assigned E m r =
     \<lparr>r_id = r_id r,
      r_email = (case m Col_email of None \<Rightarrow> r_email r | Some v \<Rightarrow> the (text_affinity E v)),
      r_name = (case m Col_name of None \<Rightarrow> r_name r | Some v \<Rightarrow> the (text_affinity E v)),
      r_age = (case m Col_age of None \<Rightarrow> r_age r | Some v \<Rightarrow> the (integer_affinity E v))\<rparr>"

definition assignments :: "(string \<times> any) list \<Rightarrow> (column \<times> sqlval) list" where
  "assignments ups = map (\<lambda>kv. (the_column (fst kv), the (bind (snd kv)))) ups"

text \<open>
  Sample data: the table \<open>sqlite.New\<close> creates in a fresh file, the table after the
  README's first create, and that table with another cell for the age; and an engine for
  the examples in which no number is turned into text and no text into a number.
\<close>

definition empty_db :: Sqlite where
  "empty_db = \<lparr>students = [], sqlite_sequence = 0\<rparr>"

definition john_db :: Sqlite where
  "john_db =
     \<lparr>students = [\<lparr>r_id = 1, r_email = ''john@example.com'', r_name = ''John Doe'',
                    r_age = CInteger 20\<rparr>],
      sqlite_sequence = 1\<rparr>"

definition john :: Student where
  "john = \<lparr>Id_field = 1, Name = ''John Doe'', Email = ''john@example.com'', Age = 20\<rparr>"

definition john_db_age :: "cell \<Rightarrow> Sqlite" where
  "john_db_age c =
     john_db\<lparr>students := [\<lparr>r_id = 1, r_email = ''john@example.com'', r_name = ''John Doe'',
                              r_age = c\<rparr>]\<rparr>"

definition plain_engine :: engine where
  "plain_engine = \<lparr>int_text = (\<lambda>n. []), real_text = (\<lambda>r. []), text_number = (\<lambda>t. None)\<rparr>"

section \<open>Properties of create, read and delete\<close>

lemma largest_rowid_ge: "r \<in> set (students s) \<Longrightarrow> r_id r \<le> largest_rowid s"
  by (simp add: largest_rowid_def)

lemma largest_rowid_nonneg: "0 \<le> largest_rowid s"
proof -
  have "int (sqlite_sequence s) \<le> largest_rowid s"
    by (simp add: largest_rowid_def)
  then show ?thesis by linarith
qed

lemma find_append_fresh:
  "\<forall>r \<in> set rs. \<not> P r \<Longrightarrow> P x \<Longrightarrow> find P (rs @ [x]) = Some x"
  by (induction rs) auto





lemma GetStudentById_row:
  assumes "GetStudentById s sid = Inr st"
  shows "\<exists>r \<in> set (students s). r_id r = sid \<and> scan_row r = Inr st"
proof (cases "find (\<lambda>r. r_id r = sid) (students s)")
  case None
  with assms show ?thesis by (simp add: GetStudentById_def)
next
  case (Some r)
  then have "r \<in> set (students s)" and "r_id r = sid"
    by (auto simp: find_Some_iff)
  moreover from Some assms have "scan_row r = Inr st"
    by (simp add: GetStudentById_def)
  ultimately show ?thesis by blast
qed

lemma GetStudentById_found:
  "find (\<lambda>r. r_id r = sid) (students s) = Some r \<Longrightarrow> GetStudentById s sid = scan_row r"
  by (simp add: GetStudentById_def)

lemma GetStudentById_Inr_find:
  assumes "GetStudentById s sid = Inr st"
  obtains r where "find (\<lambda>r. r_id r = sid) (students s) = Some r" and "scan_row r = Inr st"
  using assms by (auto simp: GetStudentById_def split: option.splits)

lemma scan_int_CInteger: "scan_int (CInteger n) = Inr n"
  by (simp add: scan_int_def)

lemma scan_int_error: "scan_int c = Inl err \<Longrightarrow> err = ScanError"
  by (auto simp: scan_int_def split: cell.splits if_splits option.splits)

lemma scan_row_Inr:
  "scan_row r = Inr st \<longleftrightarrow>
     (\<exists>a. scan_int (r_age r) = Inr a \<and>
          st = \<lparr>Id_field = r_id r, Name = r_name r, Email = r_email r, Age = a\<rparr>)"
  by (auto simp: scan_row_def split: sum.splits)

lemma scan_row_Inl: "scan_row r = Inl err \<longleftrightarrow> scan_int (r_age r) = Inl err"
  by (auto simp: scan_row_def split: sum.splits)

lemma CreateStudent_success:
  assumes "CreateStudent s name email age = (s', Inr lastId)"
  shows "lastId = largest_rowid s + 1"
    and "s' = s\<lparr>students := students s @
               [\<lparr>r_id = lastId, r_email = email, r_name = name, r_age = CInteger age\<rparr>],
             sqlite_sequence := nat lastId\<rparr>"
  using assms
  by (auto simp: CreateStudent_def exec_insert_def Let_def split: if_splits)

lemma CreateStudent_reads_back:
  assumes "CreateStudent s name email age = (s', Inr lastId)"
  shows "0 < lastId"
    and "GetStudentById s' lastId =
           Inr \<lparr>Id_field = lastId, Name = name, Email = email, Age = age\<rparr>"
proof -
  note new = CreateStudent_success [OF assms]
  from new(1) largest_rowid_nonneg [of s] show "0 < lastId" by linarith
  have "\<forall>r \<in> set (students s). \<not> r_id r = lastId"
    using new(1) largest_rowid_ge [of _ s] by fastforce
  then have "find (\<lambda>r. r_id r = lastId) (students s') =
      Some \<lparr>r_id = lastId, r_email = email, r_name = name, r_age = CInteger age\<rparr>"
    by (simp add: new(2) find_append_fresh)
  then show "GetStudentById s' lastId =
      Inr \<lparr>Id_field = lastId, Name = name, Email = email, Age = age\<rparr>"
    by (simp add: GetStudentById_def scan_row_def scan_int_def)
qed

lemma CreateStudent_failure_keeps_table:
  "CreateStudent s name email age = (s', Inl err) \<Longrightarrow> s' = s"
  by (auto simp: CreateStudent_def split: sum.splits)

lemma john_db_read: "GetStudentById john_db 1 = Inr john"
  by (simp add: GetStudentById_def john_db_def john_def scan_row_def scan_int_def)

lemma john_db_not_full: "largest_rowid john_db < MAX_ROWID"
  by (simp add: largest_rowid_def john_db_def MAX_ROWID_def)


lemma john_db_students:
  "students john_db =
     [\<lparr>r_id = 1, r_email = ''john@example.com'', r_name = ''John Doe'', r_age = CInteger 20\<rparr>]"
  by (simp add: john_db_def)

lemma john_db_age_reread:
  "GetStudentById (john_db_age c) 1 =
     (case scan_int c of Inl err \<Rightarrow> Inl err | Inr a \<Rightarrow> Inr (john\<lparr>Age := a\<rparr>))"
  by (simp add: john_db_age_def GetStudentById_def scan_row_def john_def split: sum.splits)

lemma john_db_age_differs: "c \<noteq> CInteger 20 \<Longrightarrow> john_db_age c \<noteq> john_db"
  by (simp add: john_db_age_def john_db_def)

text \<open>
  C1. A create that the table accepts (the email is not taken, the rowids are not used
  up) returns an id, the id is positive, and reading that id back gives the three inputs
  unchanged. Nothing is asked of the inputs: the storage layer stores what it is given,
  in range or not.
\<close>

theorem create_then_getById_roundtrip:
  assumes "largest_rowid s < MAX_ROWID"
    and "\<not> list_ex (\<lambda>r. r_email r = email) (students s)"
  shows "\<exists>s' lastId. CreateStudent s name email age = (s', Inr lastId) \<and> 0 < lastId \<and>
           GetStudentById s' lastId =
             Inr \<lparr>Id_field = lastId, Name = name, Email = email, Age = age\<rparr>"
proof -
  from assms obtain s' lastId where
    c: "CreateStudent s name email age = (s', Inr lastId)"
    by (simp add: CreateStudent_def exec_insert_def Let_def)
  from CreateStudent_reads_back [OF c] c show ?thesis by blast
qed

theorem create_then_getById_roundtrip_witness:
  "largest_rowid empty_db < MAX_ROWID \<and>
   \<not> list_ex (\<lambda>r. r_email r = ''john@example.com'') (students empty_db) \<and>
   (\<exists>s' lastId. CreateStudent empty_db ''John Doe'' ''john@example.com'' 20 = (s', Inr lastId) \<and>
      0 < lastId \<and>
      GetStudentById s' lastId =
        Inr \<lparr>Id_field = lastId, Name = ''John Doe'', Email = ''john@example.com'', Age = 20\<rparr>)"
proof -
  have a: "largest_rowid empty_db < MAX_ROWID"
    by (simp add: largest_rowid_def empty_db_def MAX_ROWID_def)
  have b: "\<not> list_ex (\<lambda>r. r_email r = ''john@example.com'') (students empty_db)"
    by (simp add: empty_db_def)
  from a b create_then_getById_roundtrip [OF a b, of "''John Doe''" 20] show ?thesis
    by blast
qed

text \<open>
  C5. When a student that can be read already holds the email, a create with that email
  fails with the UNIQUE constraint's error, the table is left as it was, and the first
  student is read back unchanged. Stated for a table whose rowids are not used up.
\<close>

theorem create_duplicate_email_rejected:
  assumes "GetStudentById s sid = Inr st" and "Email st = email"
    and "largest_rowid s < MAX_ROWID"
  shows "\<exists>s'. CreateStudent s name2 email age2 = (s', Inl ConstraintUnique) \<and>
           students s' = students s \<and> GetStudentById s' sid = Inr st"
proof -
  from GetStudentById_row [OF assms(1)] obtain r where
    r: "r \<in> set (students s)" "scan_row r = Inr st"
    by blast
  from r(2) assms(2) have "r_email r = email"
    by (auto simp: scan_row_def split: sum.splits)
  with r(1) have "list_ex (\<lambda>r. r_email r = email) (students s)"
    by (auto simp: list_ex_iff)
  with assms(3) have "CreateStudent s name2 email age2 = (s, Inl ConstraintUnique)"
    by (simp add: CreateStudent_def exec_insert_def)
  with assms(1) show ?thesis by simp
qed

theorem create_duplicate_email_rejected_witness:
  "GetStudentById john_db 1 = Inr john \<and> Email john = ''john@example.com'' \<and>
   largest_rowid john_db < MAX_ROWID \<and>
   (\<exists>s'. CreateStudent john_db ''Jane Doe'' ''john@example.com'' 31 = (s', Inl ConstraintUnique) \<and>
      students s' = students john_db \<and> GetStudentById s' 1 = Inr john)"
proof -
  have e: "Email john = ''john@example.com''" by (simp add: john_def)
  from create_duplicate_email_rejected [OF john_db_read e john_db_not_full, of "''Jane Doe''" 31]
  show ?thesis using john_db_read e john_db_not_full by blast
qed

text \<open>
  A row whose age is stored as an integer, as every row that \<open>CreateStudent\<close> writes is,
  can be read: with the primary key kept, the student read for its id is that row.
\<close>

lemma find_unique_row:
  "distinct (map f rs) \<Longrightarrow> r \<in> set rs \<Longrightarrow> find (\<lambda>x. f x = f r) rs = Some r"
proof (induction rs)
  case Nil
  then show ?case by simp
next
  case (Cons a rs)
  then show ?case by (cases "a = r") force+
qed

lemma stored_student_is_read:
  assumes "unique_ids s" and "r \<in> set (students s)" and "r_age r = CInteger a"
  shows "GetStudentById s (r_id r) =
           Inr \<lparr>Id_field = r_id r, Name = r_name r, Email = r_email r, Age = a\<rparr>"
proof -
  from assms(1,2) have "find (\<lambda>x. r_id x = r_id r) (students s) = Some r"
    by (simp add: unique_ids_def find_unique_row)
  with assms(3) show ?thesis
    by (simp add: GetStudentById_def scan_row_def scan_int_def)
qed



section \<open>The statement that Update builds\<close>

text \<open>The loop yields the SET clause of the keys and the values in the same order.\<close>

lemma range_updates_eq:
  "range_updates ups i q a =
     (q @ (if i > 0 \<and> ups \<noteq> [] then '', '' else []) @ join_assignments (map fst ups),
      a @ map snd ups)"
proof (induction ups arbitrary: i q a)
  case Nil
  then show ?case by simp
next
  case (Cons kv ups)
  obtain k v where kv: "kv = (k, v)" by (cases kv)
  show ?case
  proof (cases ups)
    case Nil
    with kv show ?thesis by simp
  next
    case (Cons kv' ups')
    with kv Cons.IH [of "i + 1"] show ?thesis by simp
  qed
qed

lemma update_statement_eq:
  "update_statement ups sid =
     (''UPDATE students SET '' @ join_assignments (map fst ups) @ '' WHERE id = ?'',
      map snd ups @ [AInt sid])"
  by (simp add: update_statement_def range_updates_eq)

text \<open>Reading back a SET clause of plain identifiers gives the identifiers.\<close>

lemma takeWhile_identifier:
  "is_identifier k \<Longrightarrow> takeWhile ident_char (k @ CHR '' '' # r) = k"
  by (simp add: is_identifier_def list_all_iff takeWhile_append2 ident_char_def)

lemma dropWhile_identifier:
  "is_identifier k \<Longrightarrow> dropWhile ident_char (k @ CHR '' '' # r) = CHR '' '' # r"
  by (simp add: is_identifier_def list_all_iff dropWhile_append2 ident_char_def)

lemma parse_assignments_join:
  "ks \<noteq> [] \<Longrightarrow> list_all is_identifier ks \<Longrightarrow>
   parse_assignments (join_assignments ks @ '' WHERE id = ?'') = Some ks"
proof (induction ks rule: join_assignments.induct)
  case 1
  then show ?case by simp
next
  case (2 k)
  then have k: "is_identifier k" by simp
  then have "k \<noteq> []" by (simp add: is_identifier_def)
  with k show ?case
    by (subst parse_assignments.simps)
       (simp add: takeWhile_identifier dropWhile_identifier)
next
  case (3 k k' ks)
  then have k: "is_identifier k" and rest: "list_all is_identifier (k' # ks)" by simp_all
  from k have ne: "k \<noteq> []" by (simp add: is_identifier_def)
  have ih: "parse_assignments (join_assignments (k' # ks) @ '' WHERE id = ?'') = Some (k' # ks)"
    using 3 rest by simp
  show ?case
    apply (subst parse_assignments.simps)
    using k ne ih
    apply (simp add: takeWhile_identifier dropWhile_identifier)
    done
qed

lemma allowed_identifier: "allowed k \<Longrightarrow> is_identifier k"
  by (auto simp: allowed_def is_identifier_def ident_char_def)

lemma allowed_resolve: "allowed k \<Longrightarrow> resolve k = Column (the_column k)"
  by (auto simp: allowed_def resolve_def the_column_def to_lower_def)

lemma the_column_eq_iff:
  "allowed k \<Longrightarrow> allowed k' \<Longrightarrow> the_column k = the_column k' \<longleftrightarrow> k = k'"
  by (auto simp: allowed_def the_column_def)

lemma the_column_name: "allowed k \<Longrightarrow> the_column k = Col_name \<longleftrightarrow> k = ''name''"
  by (auto simp: allowed_def the_column_def)

lemma the_column_email: "allowed k \<Longrightarrow> the_column k = Col_email \<longleftrightarrow> k = ''email''"
  by (auto simp: allowed_def the_column_def)

lemma the_column_age: "allowed k \<Longrightarrow> the_column k = Col_age \<longleftrightarrow> k = ''age''"
  by (auto simp: allowed_def the_column_def)

lemma resolve_allowed_list:
  assumes "list_all allowed ks"
  shows "map resolve ks = map (\<lambda>k. Column (the_column k)) ks"
  using assms by (induction ks) (simp_all add: allowed_resolve)

lemma columns_of_Column: "columns_of (map (\<lambda>k. Column (f k)) ks) = map f ks"
  by (induction ks) simp_all

lemma distinct_the_column:
  assumes "list_all allowed ks" and "distinct ks"
  shows "distinct (map the_column ks)"
proof -
  from assms(1) have "inj_on the_column (set ks)"
    by (auto simp: inj_on_def list_all_iff the_column_eq_iff)
  with assms(2) show ?thesis by (simp add: distinct_map)
qed

lemma Prepare_update_statement:
  assumes "updates \<noteq> []" and "list_all allowed (map fst updates)"
    and "distinct (map fst updates)"
  shows "Prepare (fst (update_statement updates sid)) = Inr (map the_column (map fst updates))"
proof -
  let ?ks = "map fst updates"
  from assms(2) have "list_all is_identifier ?ks"
    by (auto simp: list_all_iff allowed_identifier)
  with assms(1) have p: "parse_assignments (join_assignments ?ks @ '' WHERE id = ?'') = Some ?ks"
    by (simp add: parse_assignments_join)
  have q: "strip_prefix ''UPDATE students SET ''
             (''UPDATE students SET '' @ join_assignments ?ks @ '' WHERE id = ?'') =
           Some (join_assignments ?ks @ '' WHERE id = ?'')"
    by (rule strip_prefix_append)
  have r: "map resolve ?ks = map (\<lambda>k. Column (the_column k)) ?ks"
    using assms(2) by (rule resolve_allowed_list)
  have d: "distinct (map the_column ?ks)"
    using assms(2,3) by (rule distinct_the_column)
  have n: "\<not> list_ex (\<lambda>t. t = NoSuchColumn) (map (\<lambda>k. Column (the_column k)) ?ks)"
    "\<not> list_ex (\<lambda>t. t = Rowid) (map (\<lambda>k. Column (the_column k)) ?ks)"
    by (auto simp: list_ex_iff)
  show ?thesis
    unfolding update_statement_eq fst_conv Prepare_def q option.case p Let_def r
    using n d by (simp only: columns_of_Column if_False if_True)
qed



lemma allowed_updates_none:
  "list_all (\<lambda>kv. \<not> allowed (fst kv)) body \<Longrightarrow> allowed_updates body = []"
  by (simp add: allowed_updates_def list_all_iff filter_empty_conv)



section \<open>Properties of update\<close>

lemma those_bound_snoc:
  "those_bound (vs @ [AInt sid]) =
     (case those_bound vs of None \<Rightarrow> None | Some bs \<Rightarrow> Some (bs @ [SqlInteger sid]))"
  by (induction vs) (auto simp: bind_def split: option.splits)

lemma those_bound_length: "those_bound vs = Some bs \<Longrightarrow> length bs = length vs"
  by (induction vs arbitrary: bs) (auto split: option.splits)

lemma Exec_update:
  assumes "length cols = length vs"
  shows "Exec E s cols (vs @ [AInt sid]) =
     (case those_bound vs of
        None \<Rightarrow> Inl ArgumentError
      | Some bs \<Rightarrow>
          (case update_where E (zip cols bs) sid (students s) of
             Inl err \<Rightarrow> Inl err
           | Inr rows' \<Rightarrow>
               if list_ex (\<lambda>c. c = Col_email) cols \<and> email_conflict sid rows'
               then Inl ConstraintUnique
               else Inr (s\<lparr>students := rows'\<rparr>)))"
  using assms by (simp add: Exec_def those_bound_snoc split: option.splits)

lemma assign_frame:
  assumes "assign E r (c, v) = Inr r'"
  shows "r_id r' = r_id r \<and> (c \<noteq> Col_email \<longrightarrow> r_email r' = r_email r) \<and>
         (c \<noteq> Col_name \<longrightarrow> r_name r' = r_name r) \<and> (c \<noteq> Col_age \<longrightarrow> r_age r' = r_age r)"
  using assms by (cases c) (auto simp: assign_def split: option.splits)

lemma assign_all_frame:
  assumes "assign_all E cvs r = Inr r'"
  shows "r_id r' = r_id r \<and> (Col_email \<notin> fst ` set cvs \<longrightarrow> r_email r' = r_email r) \<and>
         (Col_name \<notin> fst ` set cvs \<longrightarrow> r_name r' = r_name r) \<and>
         (Col_age \<notin> fst ` set cvs \<longrightarrow> r_age r' = r_age r)"
  using assms
proof (induction cvs arbitrary: r)
  case Nil
  then show ?case by simp
next
  case (Cons cv cvs)
  obtain c v where cv: "cv = (c, v)" by (cases cv)
  from Cons.prems cv obtain r1 where
    a: "assign E r (c, v) = Inr r1" and b: "assign_all E cvs r1 = Inr r'"
    by (auto split: sum.splits)
  from assign_frame [OF a] Cons.IH [OF b] cv show ?case by auto
qed

lemma update_where_frame:
  assumes "update_where E cvs sid rs = Inr rs'"
    and "Col_email \<in> fst ` set cvs \<Longrightarrow> ''email'' \<in> keys"
    and "Col_name \<in> fst ` set cvs \<Longrightarrow> ''name'' \<in> keys"
    and "Col_age \<in> fst ` set cvs \<Longrightarrow> ''age'' \<in> keys"
  shows "list_all2 (row_frame sid keys) rs rs'"
  using assms(1)
proof (induction rs arbitrary: rs')
  case Nil
  then show ?case by simp
next
  case (Cons r rs)
  from Cons.prems obtain r1 rs1 where
    h: "(if r_id r = sid then assign_all E cvs r else Inr r) = Inr r1"
    and t: "update_where E cvs sid rs = Inr rs1" and e: "rs' = r1 # rs1"
    by (auto split: sum.splits)
  have "row_frame sid keys r r1"
  proof (cases "r_id r = sid")
    case True
    with h have "assign_all E cvs r = Inr r1" by simp
    from assign_all_frame [OF this] True assms(2-4) show ?thesis
      by (auto simp: row_frame_def)
  next
    case False
    with h show ?thesis by (simp add: row_frame_def)
  qed
  with Cons.IH [OF t] e show ?case by simp
qed

lemma update_where_ids: "update_where E cvs sid rs = Inr rs' \<Longrightarrow> map r_id rs' = map r_id rs"
proof (induction rs arbitrary: rs')
  case Nil
  then show ?case by simp
next
  case (Cons r rs)
  from Cons.prems obtain r1 rs1 where
    h: "(if r_id r = sid then assign_all E cvs r else Inr r) = Inr r1"
    and t: "update_where E cvs sid rs = Inr rs1" and e: "rs' = r1 # rs1"
    by (auto split: sum.splits)
  from h have "r_id r1 = r_id r"
    by (auto dest: assign_all_frame split: if_splits)
  with Cons.IH [OF t] e show ?case by simp
qed

lemma Exec_ids: "Exec E s cols args = Inr s' \<Longrightarrow> map r_id (students s') = map r_id (students s)"
  by (auto simp: Exec_def dest: update_where_ids
      split: if_splits option.splits sqlval.splits sum.splits)

text \<open>\<open>Update\<close> on keys of the allow-list, with the statement text resolved.\<close>

lemma Update_allowed:
  assumes "updates \<noteq> []" and "list_all allowed (map fst updates)"
    and "distinct (map fst updates)"
  shows "Update E s sid updates =
     (case GetStudentById s sid of
        Inl err \<Rightarrow> (s, Inl err)
      | Inr _ \<Rightarrow>
          (case those_bound (map snd updates) of
             None \<Rightarrow> (s, Inl ArgumentError)
           | Some bs \<Rightarrow>
               (case update_where E (zip (map the_column (map fst updates)) bs) sid (students s) of
                  Inl err \<Rightarrow> (s, Inl err)
                | Inr rows' \<Rightarrow>
                    if list_ex (\<lambda>c. c = Col_email) (map the_column (map fst updates)) \<and>
                       email_conflict sid rows'
                    then (s, Inl ConstraintUnique)
                    else (s\<lparr>students := rows'\<rparr>, GetStudentById (s\<lparr>students := rows'\<rparr>) sid))))"
proof -
  have p: "Prepare (''UPDATE students SET '' @ join_assignments (map fst updates) @ '' WHERE id = ?'') =
      Inr (map the_column (map fst updates))"
    using Prepare_update_statement [OF assms, of sid] by (simp add: update_statement_eq)
  have e: "Exec E s (map the_column (map fst updates)) (map snd updates @ [AInt sid]) =
      (case those_bound (map snd updates) of
        None \<Rightarrow> Inl ArgumentError
      | Some bs \<Rightarrow>
          (case update_where E (zip (map the_column (map fst updates)) bs) sid (students s) of
             Inl err \<Rightarrow> Inl err
           | Inr rows' \<Rightarrow>
               if list_ex (\<lambda>c. c = Col_email) (map the_column (map fst updates)) \<and>
                  email_conflict sid rows'
               then Inl ConstraintUnique
               else Inr (s\<lparr>students := rows'\<rparr>)))"
    by (rule Exec_update) simp
  from assms(1) show ?thesis
    unfolding Update_def update_statement_eq prod.case p sum.case e
    by (simp split: sum.splits option.splits)
qed

lemma Update_empty: "Update E s sid [] = (s, Inl (ErrorString ''no fields to update''))"
  by (simp add: Update_def)

lemma Update_result:
  assumes "Update E s sid updates = (s', res)"
  shows "(s' = s \<and> (\<exists>err. res = Inl err)) \<or>
         ((\<exists>old. GetStudentById s sid = Inr old) \<and> res = GetStudentById s' sid)"
proof (cases "GetStudentById s sid")
  case (Inl err)
  with assms have "s' = s" and "res = Inl (ErrorString ''no fields to update'') \<or> res = Inl err"
    by (cases "length updates = 0"; simp add: Update_def)+
  then show ?thesis by blast
next
  case (Inr old)
  with assms show ?thesis
    by (auto simp: Update_def split: if_splits sum.splits prod.splits)
qed

lemma Update_ids:
  assumes "Update E s sid updates = (s', res)"
  shows "map r_id (students s') = map r_id (students s)"
proof (cases "s' = s")
  case True
  then show ?thesis by simp
next
  case False
  with assms obtain cols args where "Exec E s cols args = Inr s'"
    by (auto simp: Update_def split: if_splits sum.splits prod.splits)
  then show ?thesis by (rule Exec_ids)
qed

lemma find_frame:
  assumes "list_all2 (row_frame sid keys) rs rs'"
  shows "rel_option (row_frame sid keys) (find (\<lambda>r. r_id r = sid) rs) (find (\<lambda>r. r_id r = sid) rs')"
  using assms by (induction rule: list_all2_induct) (auto simp: row_frame_def)

lemma row_frame_refl: "list_all2 (row_frame sid keys) rs rs"
  by (simp add: list_all2_same row_frame_def)

lemma Update_frame_rows:
  assumes "list_all allowed (map fst updates)" and "distinct (map fst updates)"
    and "Update E s sid updates = (s', res)"
  shows "list_all2 (row_frame sid (fst ` set updates)) (students s) (students s') \<and>
         sqlite_sequence s' = sqlite_sequence s"
proof (cases "s' = s")
  case True
  then show ?thesis by (simp add: row_frame_refl)
next
  case False
  then have ne: "updates \<noteq> []" using assms(3) by (auto simp: Update_def)
  from assms(3) False obtain bs rows' where
    b: "those_bound (map snd updates) = Some bs"
    and u: "update_where E (zip (map the_column (map fst updates)) bs) sid (students s) = Inr rows'"
    and s': "s' = s\<lparr>students := rows'\<rparr>"
    unfolding Update_allowed [OF ne assms(1,2)]
    by (auto split: sum.splits option.splits if_splits)
  have k: "c \<in> fst ` set (zip (map the_column (map fst updates)) bs) \<Longrightarrow>
           \<exists>k \<in> fst ` set updates. allowed k \<and> the_column k = c" for c
  proof -
    assume "c \<in> fst ` set (zip (map the_column (map fst updates)) bs)"
    then have "c \<in> set (map the_column (map fst updates))"
      by (auto dest: set_zip_leftD)
    with assms(1) show ?thesis by (auto simp: list_all_iff)
  qed
  have "list_all2 (row_frame sid (fst ` set updates)) (students s) rows'"
  proof (rule update_where_frame [OF u])
    assume "Col_email \<in> fst ` set (zip (map the_column (map fst updates)) bs)"
    from k [OF this] show "''email'' \<in> fst ` set updates"
      by (force simp: the_column_email)
  next
    assume "Col_name \<in> fst ` set (zip (map the_column (map fst updates)) bs)"
    from k [OF this] show "''name'' \<in> fst ` set updates"
      by (force simp: the_column_name)
  next
    assume "Col_age \<in> fst ` set (zip (map the_column (map fst updates)) bs)"
    from k [OF this] show "''age'' \<in> fst ` set updates"
      by (force simp: the_column_age)
  qed
  with s' show ?thesis by simp
qed

text \<open>
  On keys of the allow-list the statement \<open>Update\<close> builds stays inside the fragment of
  SQL interpreted here, and it compiles.
\<close>

lemma GetStudentById_error:
  "GetStudentById s sid = Inl err \<Longrightarrow> err = ErrNoRows \<or> err = ScanError"
  by (auto simp: GetStudentById_def scan_row_Inl dest: scan_int_error split: option.splits)

lemma assign_error: "assign E r cv = Inl err \<Longrightarrow> err = ConstraintNotNull"
  by (auto simp: assign_def split: prod.splits column.splits option.splits)

lemma assign_all_error: "assign_all E cvs r = Inl err \<Longrightarrow> err = ConstraintNotNull"
  by (induction cvs arbitrary: r) (auto dest: assign_error split: sum.splits)

lemma update_where_error: "update_where E cvs sid rs = Inl err \<Longrightarrow> err = ConstraintNotNull"
  by (induction rs) (auto dest: assign_all_error split: sum.splits if_splits)

lemma Update_inside_model:
  assumes "list_all allowed (map fst updates)" and "distinct (map fst updates)"
    and "Update E s sid updates = (s', Inl err)"
  shows "err \<noteq> OutsideModel \<and> err \<noteq> PrepareError"
proof (cases "updates = []")
  case True
  with assms(3) show ?thesis by (auto simp: Update_empty)
next
  case False
  from assms(3) show ?thesis
    unfolding Update_allowed [OF False assms(1,2)]
    by (auto dest: GetStudentById_error update_where_error
        split: sum.splits option.splits if_splits)
qed

text \<open>
  A Go map has no order, and the loop over it meets the entries in any order. The text of
  the statement follows that order; what \<open>Update\<close> does and returns does not.
\<close>

lemma assign_all_closed:
  assumes "distinct (map fst cvs)"
  shows "assign_all E cvs r =
     (if list_ex (cell_fails E) cvs then Inl ConstraintNotNull else Inr (assigned E (map_of cvs) r))"
  using assms
proof (induction cvs arbitrary: r)
  case Nil
  then show ?case by (simp add: assigned_def)
next
  case (Cons cv cvs)
  obtain c v where cv: "cv = (c, v)" by (cases cv)
  from Cons.prems cv have d: "distinct (map fst cvs)" and n: "map_of cvs c = None"
    by (auto simp: map_of_eq_None_iff)
  show ?case
  proof (cases "cell_fails E cv")
    case True
    with cv show ?thesis
      by (cases c) (auto simp: cell_fails_def assign_def split: option.splits)
  next
    case False
    with cv n show ?thesis
      by (cases c) (auto simp: Cons.IH [OF d] cell_fails_def assign_def assigned_def
          split: option.splits)
  qed
qed

lemma update_where_same_assignments:
  assumes "distinct (map fst cvs)" and "distinct (map fst cvs')" and "set cvs = set cvs'"
  shows "update_where E cvs sid rs = update_where E cvs' sid rs"
proof -
  from assms have "map_of cvs = map_of cvs'"
    by (simp add: map_of_inject_set)
  moreover from assms(3) have "list_ex (cell_fails E) cvs = list_ex (cell_fails E) cvs'"
    by (simp add: list_ex_iff)
  ultimately have "assign_all E cvs r = assign_all E cvs' r" for r
    by (simp add: assign_all_closed assms(1,2))
  then show ?thesis by (induction rs) (simp_all cong: sum.case_cong)
qed

lemma those_bound_map:
  "those_bound vs = (if list_ex (\<lambda>v. bind v = None) vs then None else Some (map (\<lambda>v. the (bind v)) vs))"
  by (induction vs) (auto split: option.splits)

lemma zip_assignments:
  "zip (map the_column (map fst ups)) (map (\<lambda>v. the (bind v)) (map snd ups)) =
     map (\<lambda>kv. (the_column (fst kv), the (bind (snd kv)))) ups"
  by (induction ups) simp_all

lemma Update_allowed_closed:
  assumes "updates \<noteq> []" and "list_all allowed (map fst updates)"
    and "distinct (map fst updates)"
  shows "Update E s sid updates =
     (case GetStudentById s sid of
        Inl err \<Rightarrow> (s, Inl err)
      | Inr _ \<Rightarrow>
          if list_ex (\<lambda>v. bind v = None) (map snd updates) then (s, Inl ArgumentError)
          else (case update_where E (assignments updates) sid (students s) of
                  Inl err \<Rightarrow> (s, Inl err)
                | Inr rows' \<Rightarrow>
                    if list_ex (\<lambda>c. c = Col_email) (map the_column (map fst updates)) \<and>
                       email_conflict sid rows'
                    then (s, Inl ConstraintUnique)
                    else (s\<lparr>students := rows'\<rparr>, GetStudentById (s\<lparr>students := rows'\<rparr>) sid)))"
proof -
  have z: "zip (map the_column (map fst updates)) (map (\<lambda>v. the (bind v)) (map snd updates)) =
      assignments updates"
    unfolding assignments_def by (rule zip_assignments)
  show ?thesis
  proof (cases "list_ex (\<lambda>v. bind v = None) (map snd updates)")
    case True
    show ?thesis
      unfolding Update_allowed [OF assms] those_bound_map
      by (simp only: True if_True option.case)
  next
    case False
    show ?thesis
      unfolding Update_allowed [OF assms] those_bound_map
      by (simp only: False if_False option.case z)
  qed
qed

lemma Update_order_irrelevant:
  assumes "list_all allowed (map fst updates)" and "distinct (map fst updates)"
    and "distinct (map fst updates')" and "set updates' = set updates"
  shows "Update E s sid updates' = Update E s sid updates"
proof (cases "updates = []")
  case True
  with assms(4) show ?thesis by simp
next
  case False
  with assms(4) have ne: "updates' \<noteq> []" by auto
  from assms(1,4) have al: "list_all allowed (map fst updates')"
    by (auto simp: list_all_iff)
  have b: "list_ex (\<lambda>v. bind v = None) (map snd updates') =
           list_ex (\<lambda>v. bind v = None) (map snd updates)"
    using assms(4) by (simp add: list_ex_iff)
  have c: "list_ex (\<lambda>c. c = Col_email) (map the_column (map fst updates')) =
           list_ex (\<lambda>c. c = Col_email) (map the_column (map fst updates))"
    using assms(4) by (simp add: list_ex_iff)
  have d: "distinct (map fst (assignments updates))" "distinct (map fst (assignments updates'))"
    using distinct_the_column [OF assms(1,2)] distinct_the_column [OF al assms(3)]
    by (simp_all add: assignments_def comp_def)
  have e: "set (assignments updates') = set (assignments updates)"
    using assms(4) by (simp add: assignments_def)
  have u: "update_where E (assignments updates') sid (students s) =
           update_where E (assignments updates) sid (students s)"
    by (rule update_where_same_assignments [OF d(2) d(1) e])
  show ?thesis
    unfolding Update_allowed_closed [OF False assms(1,2)]
      Update_allowed_closed [OF ne al assms(3)] b c u
    by (rule refl)
qed

lemma Update_age_only:
  "Update E john_db 1 [(''age'', AFloat r)] =
     (john_db\<lparr>students := [\<lparr>r_id = 1, r_email = ''john@example.com'', r_name = ''John Doe'',
                              r_age = real_cell r\<rparr>]\<rparr>,
      case scan_int (real_cell r) of Inl err \<Rightarrow> Inl err
      | Inr a \<Rightarrow> Inr (john\<lparr>Age := a\<rparr>))"
proof -
  have a: "[(''age'', AFloat r)] \<noteq> []" "list_all allowed (map fst [(''age'', AFloat r)])"
    "distinct (map fst [(''age'', AFloat r)])"
    by (simp_all add: allowed_def)
  show ?thesis
    unfolding Update_allowed [OF a]
    by (simp add: john_db_read bind_def the_column_def john_db_def assign_def
        integer_affinity_def GetStudentById_def scan_row_def john_def scan_int_CInteger
        split: sum.splits)
qed

lemma Update_age_nil:
  "Update E john_db 1 [(''age'', ANil)] = (john_db, Inl ConstraintNotNull)"
proof -
  have a: "[(''age'', ANil)] \<noteq> []" "list_all allowed (map fst [(''age'', ANil)])"
    "distinct (map fst [(''age'', ANil)])"
    by (simp_all add: allowed_def)
  show ?thesis
    unfolding Update_allowed [OF a]
    by (simp add: john_db_read bind_def the_column_def john_db_students assign_def
        integer_affinity_def)
qed

lemma floor_51_2: "\<lfloor>51 / 2 :: rat\<rfloor> = 25"
  by (rule floor_unique) simp_all


lemma real_cell_51_2: "real_cell (51 / 2) = CReal (51 / 2)"
  by (simp add: real_cell_def is_integral_def floor_51_2)

lemma scan_int_51_2: "scan_int (CReal (51 / 2)) = Inl ScanError"
  by (simp add: scan_int_def is_integral_def floor_51_2)



text \<open>
  C10, as amended. For keys of the allow-list, an error from \<open>Update\<close> leaves the table
  as it was, with one exception: the UPDATE went through and the row could not be read
  again. Then the error is the scan error, \<open>age\<close> was among the keys, the student could
  be read before the call, and the table now holds a row for the id whose age does not
  scan into an integer.
\<close>

theorem update_error_keeps_table_unless_reread_fails:
  assumes "list_all allowed (map fst updates)" and "distinct (map fst updates)"
    and "Update E s sid updates = (s', Inl err)"
  shows "s' = s \<or>
         (err = ScanError \<and> ''age'' \<in> fst ` set updates \<and>
          (\<exists>old. GetStudentById s sid = Inr old) \<and>
          list_ex (\<lambda>r. r_id r = sid \<and> scan_int (r_age r) = Inl ScanError) (students s'))"
proof (cases "s' = s")
  case True
  then show ?thesis by simp
next
  case False
  let ?keys = "fst ` set updates"
  from Update_result [OF assms(3)] False obtain old where
    old: "GetStudentById s sid = Inr old" and new: "GetStudentById s' sid = Inl err"
    by auto
  from old obtain r where
    r: "find (\<lambda>r. r_id r = sid) (students s) = Some r" "scan_row r = Inr old"
    by (rule GetStudentById_Inr_find)
  from Update_frame_rows [OF assms] have "rel_option (row_frame sid ?keys)
      (find (\<lambda>r. r_id r = sid) (students s)) (find (\<lambda>r. r_id r = sid) (students s'))"
    by (simp add: find_frame)
  with r(1) obtain r' where
    r': "find (\<lambda>r. r_id r = sid) (students s') = Some r'" and f: "row_frame sid ?keys r r'"
    by (auto simp: option_rel_Some1)
  from r' new have "scan_row r' = Inl err" by (simp add: GetStudentById_found)
  then have e: "scan_int (r_age r') = Inl err" by (simp add: scan_row_Inl)
  then have err: "err = ScanError" by (rule scan_int_error)
  from r(2) obtain a where "scan_int (r_age r) = Inr a" by (auto simp: scan_row_Inr)
  with e f have age: "''age'' \<in> ?keys" by (auto simp: row_frame_def)
  from r' have "r' \<in> set (students s')" and "r_id r' = sid"
    by (auto simp: find_Some_iff)
  with e err have "list_ex (\<lambda>r. r_id r = sid \<and> scan_int (r_age r) = Inl ScanError) (students s')"
    by (auto simp: list_ex_iff)
  with err age old show ?thesis by blast
qed

theorem update_error_keeps_table_unless_reread_fails_witness:
  "list_all allowed (map fst [(''age'', ANil)]) \<and> distinct (map fst [(''age'', ANil)]) \<and>
   Update plain_engine john_db 1 [(''age'', ANil)] = (john_db, Inl ConstraintNotNull) \<and>
   (john_db = john_db \<or>
    (ConstraintNotNull = ScanError \<and> ''age'' \<in> fst ` set [(''age'', ANil)] \<and>
     (\<exists>old. GetStudentById john_db 1 = Inr old) \<and>
     list_ex (\<lambda>r. r_id r = 1 \<and> scan_int (r_age r) = Inl ScanError) (students john_db)))"
proof -
  have a: "list_all allowed (map fst [(''age'', ANil)])"
    by (simp add: allowed_def)
  have b: "distinct (map fst [(''age'', ANil)])"
    by simp
  note c = Update_age_nil [of plain_engine]
  from update_error_keeps_table_unless_reread_fails [OF a b c] a b c
  show ?thesis by blast
qed

text \<open>
  C10, as stated, fails: with the age 25.5 the UPDATE stores a real, the read that follows
  fails, and \<open>Update\<close> returns the error with the row changed. The engine plays no
  part in it: a real that is not whole is stored as it is.
\<close>

theorem update_error_after_write_counterexample:
  "Update plain_engine john_db 1 [(''age'', AFloat (51 / 2))] =
     (john_db_age (CReal (51 / 2)), Inl ScanError) \<and>
   john_db_age (CReal (51 / 2)) \<noteq> john_db \<and>
   GetStudentById john_db 1 = Inr john \<and>
   GetStudentById (john_db_age (CReal (51 / 2))) 1 = Inl ScanError"
proof (intro conjI)
  show "Update plain_engine john_db 1 [(''age'', AFloat (51 / 2))] =
      (john_db_age (CReal (51 / 2)), Inl ScanError)"
    by (simp add: Update_age_only real_cell_51_2 scan_int_51_2 john_db_age_def)
  show "john_db_age (CReal (51 / 2)) \<noteq> john_db"
    by (simp add: john_db_age_differs)
  show "GetStudentById john_db 1 = Inr john"
    by (rule john_db_read)
  show "GetStudentById (john_db_age (CReal (51 / 2))) 1 = Inl ScanError"
    by (simp add: john_db_age_reread scan_int_51_2)
qed

section \<open>Properties of the handlers\<close>

lemma ParseInt_1: "ParseInt ''1'' = Some 1"
  by (simp add: ParseInt_def is_digit_def digits_value_def)

text \<open>
  C6. \<open>Update\<close> with the empty map returns "no fields to update" and the table as it
  was. A body whose keys are all outside the allow-list reaches \<open>Update\<close> as the empty
  map, and the handler answers 500 with that error.
\<close>

theorem update_with_no_fields_is_rejected:
  "Update E s sid [] = (s, Inl (ErrorString ''no fields to update'')) \<and>
   (\<forall>intId body. ParseInt ident = Some intId \<and> list_all (\<lambda>kv. \<not> allowed (fst kv)) body \<longrightarrow>
      allowed_updates body = [] \<and>
      UpdateById E s ident (Decoded body) =
        (s, \<lparr>status_code = 500, written = ErrorBody (ErrorString ''no fields to update'')\<rparr>))"
  by (simp add: Update_empty UpdateById_def allowed_updates_none WriteJson_def GeneralError_def)

theorem update_with_no_fields_is_rejected_witness:
  "ParseInt ''1'' = Some 1 \<and>
   list_all (\<lambda>kv. \<not> allowed (fst kv)) [(''id'', AFloat 7), (''role'', AString ''admin'')] \<and>
   Update plain_engine john_db 1 [] = (john_db, Inl (ErrorString ''no fields to update'')) \<and>
   UpdateById plain_engine john_db ''1''
       (Decoded [(''id'', AFloat 7), (''role'', AString ''admin'')]) =
     (john_db, \<lparr>status_code = 500, written = ErrorBody (ErrorString ''no fields to update'')\<rparr>)"
proof -
  have a: "list_all (\<lambda>kv. \<not> allowed (fst kv)) [(''id'', AFloat 7), (''role'', AString ''admin'')]"
    by (simp add: allowed_def)
  from update_with_no_fields_is_rejected [of plain_engine john_db 1 "''1''"] ParseInt_1 a
  show ?thesis by blast
qed

text \<open>On create, a student that breaks a rule is answered with 400 and the table is not touched.\<close>

lemma validate_Struct_empty_iff:
  "validate_Struct is_email student = [] \<longleftrightarrow>
     Name student \<noteq> [] \<and> is_email (Email student) \<and> 1 \<le> Age student \<and> Age student \<le> 120"
  by (auto simp: validate_Struct_def)

lemma New_validates_before_storage:
  "validate_Struct is_email student \<noteq> [] \<Longrightarrow>
   New is_email s (Decoded student) =
     (s, \<lparr>status_code = 400, written = ValidationError (validate_Struct is_email student)\<rparr>)"
  by (cases "validate_Struct is_email student") (simp_all add: New_def WriteJson_def)

lemma New_malformed_json:
  "New is_email s (DecodeFailed msg) =
     (s, \<lparr>status_code = 400, written = ErrorBody (Wrapped ''invalid JSON'' (DecodeError msg))\<rparr>)"
  by (simp add: New_def WriteJson_def GeneralError_def)

text \<open>
  C7 fails on update: \<open>UpdateById\<close> validates nothing. The body \<^verbatim>\<open>{"age": 500}\<close> is
  taken to the storage layer, stored, and answered with 200.
\<close>

theorem update_handler_stores_unvalidated_age:
  "UpdateById E john_db ''1'' (Decoded [(''age'', AFloat 500)]) =
     (john_db\<lparr>students := [\<lparr>r_id = 1, r_email = ''john@example.com'', r_name = ''John Doe'',
                              r_age = CInteger 500\<rparr>]\<rparr>,
      \<lparr>status_code = 200,
       written = SuccessBody ''student updated successfully'' (OneStudent (john\<lparr>Age := 500\<rparr>))\<rparr>)"
proof -
  have c: "real_cell 500 = CInteger 500"
    by (simp add: real_cell_def is_integral_def)
  have a: "allowed_updates [(''age'', AFloat 500)] = [(''age'', AFloat 500)]"
    by (simp add: allowed_updates_def allowed_def)
  show ?thesis
    by (simp add: UpdateById_def ParseInt_1 a Update_age_only c scan_int_CInteger
        WriteJson_def)
qed

text \<open>
  C8 fails on update: a body that does not decode is answered with 500 and
  "no fields to update" after the call of \<open>Update\<close>, not with 400 and the parse error.
\<close>

theorem update_handler_ignores_decode_error:
  "UpdateById E s ''1'' (DecodeFailed msg) =
     (s, \<lparr>status_code = 500, written = ErrorBody (ErrorString ''no fields to update'')\<rparr>)"
  by (simp add: UpdateById_def ParseInt_1 allowed_updates_def Update_empty WriteJson_def
      GeneralError_def)

section \<open>The README's requests, one after the other\<close>

text \<open>
  Create on the fresh table, read, change the age, delete, read again: the answers are
  those the README shows, and the last read is answered with 500 and \<open>sql.ErrNoRows\<close>.
  The list of the fresh table is empty and answered with 200.
\<close>

lemma New_john:
  "New (\<lambda>e. True) empty_db
       (Decoded \<lparr>Id_field = 0, Name = ''John Doe'', Email = ''john@example.com'', Age = 20\<rparr>) =
     (john_db, \<lparr>status_code = 201,
                written = SuccessBody ''student created successfully'' (LastId 1)\<rparr>)"
  by (simp add: New_def validate_Struct_def CreateStudent_def exec_insert_def largest_rowid_def
      empty_db_def MAX_ROWID_def john_db_def WriteJson_def)

lemma GetById_john:
  "GetById john_db ''1'' =
     (john_db, \<lparr>status_code = 200,
                written = SuccessBody ''student fetched successfully'' (OneStudent john)\<rparr>)"
  by (simp add: GetById_def ParseInt_1 john_db_read WriteJson_def)

lemma UpdateById_john:
  "UpdateById E john_db ''1'' (Decoded [(''age'', AFloat 21)]) =
     (john_db_age (CInteger 21),
      \<lparr>status_code = 200,
       written = SuccessBody ''student updated successfully'' (OneStudent (john\<lparr>Age := 21\<rparr>))\<rparr>)"
proof -
  have c: "real_cell 21 = CInteger 21"
    by (simp add: real_cell_def is_integral_def)
  have a: "allowed_updates [(''age'', AFloat 21)] = [(''age'', AFloat 21)]"
    by (simp add: allowed_updates_def allowed_def)
  show ?thesis
    by (simp add: UpdateById_def ParseInt_1 a Update_age_only c scan_int_CInteger
        WriteJson_def john_db_age_def)
qed

lemma DeleteById_john:
  "DeleteById (john_db_age (CInteger 21)) ''1'' =
     (\<lparr>students = [], sqlite_sequence = 1\<rparr>,
      \<lparr>status_code = 200,
       written = SuccessBody ''student deleted successfully'' (RowsDeleted 1)\<rparr>)"
proof -
  have g: "GetStudentById (john_db_age (CInteger 21)) 1 = Inr (john\<lparr>Age := 21\<rparr>)"
    by (simp add: john_db_age_reread scan_int_CInteger)
  have d: "exec_delete (john_db_age (CInteger 21)) 1 = (\<lparr>students = [], sqlite_sequence = 1\<rparr>, 1)"
    by (simp add: exec_delete_def john_db_age_def john_db_def)
  show ?thesis
    by (simp add: DeleteById_def ParseInt_1 Delete_def g d WriteJson_def)
qed

lemma GetById_after_delete:
  "GetById \<lparr>students = [], sqlite_sequence = 1\<rparr> ''1'' =
     (\<lparr>students = [], sqlite_sequence = 1\<rparr>,
      \<lparr>status_code = 500, written = ErrorBody ErrNoRows\<rparr>)"
  by (simp add: GetById_def ParseInt_1 GetStudentById_def WriteJson_def GeneralError_def)

lemma GetList_empty:
  "GetList empty_db =
     (empty_db, \<lparr>status_code = 200,
                 written = SuccessBody ''students fetched successfully'' (StudentList [])\<rparr>)"
  by (simp add: GetList_def GetStudents_def empty_db_def WriteJson_def)

section \<open>Properties of the router\<close>

lemma most_specific_mem: "most_specific rs = Some r \<Longrightarrow> r \<in> set rs"
  by (induction rs arbitrary: r) (auto split: option.splits if_splits)

lemma findHandler_serves_registered:
  assumes "findHandler router m path = Serve h"
  shows "h \<in> snd ` set router"
proof -
  from assms obtain r where "match router m (path_segments path) = Some r" and "snd r = h"
    by (auto simp: findHandler_def Let_def split: if_splits option.splits)
  then show ?thesis
    by (auto simp: match_def dest!: most_specific_mem)
qed

lemma part_005_router_serves:
  "findHandler part_005_router ''POST'' ''/api/students'' = Serve Student_New \<and>
   findHandler part_005_router ''GET'' ''/api/students/1'' = Serve Student_GetById \<and>
   findHandler part_005_router ''GET'' ''/api/students/'' = Serve Student_GetList"
  by code_simp

lemma update_and_delete_handlers_unreachable:
  "findHandler part_005_router m path \<noteq> Serve Student_UpdateById \<and>
   findHandler part_005_router m path \<noteq> Serve Student_DeleteById \<and>
   findHandler main_router m path \<noteq> Serve Student_UpdateById \<and>
   findHandler main_router m path \<noteq> Serve Student_DeleteById"
  by (auto dest!: findHandler_serves_registered simp: part_005_router_def main_router_def HandleFunc_def)

text \<open>
  C3 fails: neither \<open>main\<close> registers a pattern for PATCH or DELETE. Such a request on a
  student's path is answered with 405 and no handler of the package \<open>student\<close> runs.
\<close>

theorem router_binds_no_patch_or_delete:
  "findHandler main_router ''PATCH'' ''/api/students/1'' = MethodNotAllowed \<and>
   findHandler main_router ''DELETE'' ''/api/students/1'' = MethodNotAllowed \<and>
   findHandler part_005_router ''PATCH'' ''/api/students/1'' = MethodNotAllowed \<and>
   findHandler part_005_router ''DELETE'' ''/api/students/1'' = MethodNotAllowed"
  by code_simp

section \<open>The primary key is kept\<close>

lemma unique_ids_empty_db: "unique_ids empty_db"
  by (simp add: unique_ids_def empty_db_def)

lemma unique_ids_CreateStudent:
  assumes "unique_ids s" and "CreateStudent s name email age = (s', res)"
  shows "unique_ids s'"
proof (cases res)
  case (Inl err)
  with assms show ?thesis
    by (auto simp: CreateStudent_def split: sum.splits)
next
  case (Inr lastId)
  with assms(2) have c: "CreateStudent s name email age = (s', Inr lastId)" by simp
  note new = CreateStudent_success [OF c]
  have "lastId \<notin> r_id ` set (students s)"
    using new(1) largest_rowid_ge [of _ s] by fastforce
  with assms(1) show ?thesis
    by (simp add: new(2) unique_ids_def)
qed

lemma unique_ids_Delete:
  assumes "unique_ids s" and "Delete s sid = (s', res)"
  shows "unique_ids s'"
  using assms
  by (auto simp: Delete_def exec_delete_def unique_ids_def distinct_map_filter
      split: sum.splits)

lemma unique_ids_Update:
  assumes "unique_ids s" and "Update E s sid updates = (s', res)"
  shows "unique_ids s'"
  using assms(1) Update_ids [OF assms(2)] by (simp add: unique_ids_def)

end
